theory Spec2Isabelle
  imports Main "HOL-Library.Sublist"
begin

section \<open>Strings, decimal numerals and exceptions\<close>

text \<open>
  The bot of \<^verbatim>\<open>src/eggy/eggy.py\<close> is modelled by explicit state passing. Python
  strings are lists of characters; \<^typ>\<open>char\<close> has 256 values, so the model covers the
  texts whose code points are below 256. On those, the class \<^verbatim>\<open>\d\<close> of Python's
  \<^verbatim>\<open>re\<close> module is exactly the ten ASCII digits.
\<close>

abbreviation LF :: char where "LF \<equiv> CHR 0x0A"
abbreviation CR :: char where "CR \<equiv> CHR 0x0D"
abbreviation TAB :: char where "TAB \<equiv> CHR 0x09"
abbreviation APOSTROPHE :: char where "APOSTROPHE \<equiv> CHR 0x27"
abbreviation QUOTATION :: char where "QUOTATION \<equiv> CHR 0x22"
abbreviation BACKSLASH :: char where "BACKSLASH \<equiv> CHR 0x5C"

definition digit_char :: "nat \<Rightarrow> char" where
  "digit_char d = ''0123456789'' ! d"

definition is_digit :: "char \<Rightarrow> bool" where
  "is_digit c = (c \<in> set ''0123456789'')"

definition digit_val :: "char \<Rightarrow> nat" where
  "digit_val c = of_char c - 48"

text \<open>\<^verbatim>\<open>str(n)\<close> for a Python integer: decimal digits, most significant first, a
  minus sign for a negative number.\<close>

fun str_nat :: "nat \<Rightarrow> string" where
  "str_nat n = (if n < 10 then [digit_char n] else str_nat (n div 10) @ [digit_char (n mod 10)])"

declare str_nat.simps [simp del]

definition str_int :: "int \<Rightarrow> string" where
  "str_int i = (if i < 0 then CHR ''-'' # str_nat (nat (- i)) else str_nat (nat i))"

text \<open>\<^verbatim>\<open>int(query)\<close> on the strings the pattern of \<^verbatim>\<open>GetQuote\<close> lets through: an
  optional minus sign and decimal digits.\<close>

definition nat_of_digits :: "string \<Rightarrow> nat" where
  "nat_of_digits ds = foldl (\<lambda>a c. 10 * a + digit_val c) 0 ds"

definition py_int :: "string \<Rightarrow> int" where
  "py_int q = (case q of
      [] \<Rightarrow> 0
    | c # ds \<Rightarrow> if c = CHR ''-'' then - int (nat_of_digits ds) else int (nat_of_digits q))"

text \<open>\<^verbatim>\<open>repr(s)\<close> of a string, which is what \<^verbatim>\<open>str\<close> of a \<^verbatim>\<open>KeyError\<close> shows: single
  quotes unless the text has a single quote and no double quote; the quote character and
  the backslash escaped; tab, line feed and carriage return by letter; the other
  non-printable characters in hexadecimal.\<close>

definition hex_digit :: "nat \<Rightarrow> char" where
  "hex_digit d = ''0123456789abcdef'' ! d"

definition is_printable :: "char \<Rightarrow> bool" where
  "is_printable c = (let n = (of_char c :: nat) in (32 \<le> n \<and> n < 127) \<or> (161 \<le> n \<and> n \<noteq> 173))"

definition repr_char :: "char \<Rightarrow> char \<Rightarrow> string" where
  "repr_char quote c =
     (if c = quote \<or> c = BACKSLASH then [BACKSLASH, c]
      else if c = TAB then [BACKSLASH, CHR ''t'']
      else if c = LF then [BACKSLASH, CHR ''n'']
      else if c = CR then [BACKSLASH, CHR ''r'']
      else if is_printable c then [c]
      else [BACKSLASH, CHR ''x'', hex_digit (of_char c div 16), hex_digit (of_char c mod 16)])"

definition repr :: "string \<Rightarrow> string" where
  "repr s =
     (let quote = (if APOSTROPHE \<in> set s \<and> QUOTATION \<notin> set s then QUOTATION else APOSTROPHE)
      in [quote] @ concat (map (repr_char quote) s) @ [quote])"

text \<open>The exceptions of class \<^verbatim>\<open>Exception\<close> that the handlers can raise:
  \<^verbatim>\<open>ValueError()\<close> from \<^verbatim>\<open>Quotes.add\<close>, \<^verbatim>\<open>KeyError(key)\<close> from a dictionary
  lookup, \<^verbatim>\<open>IndexError\<close> from list indexing, and any other one, given by the text of
  its type and its own text.\<close>

datatype exn = ValueError | KeyError string | IndexError | OtherException string string

fun str_type :: "exn \<Rightarrow> string" where
  "str_type ValueError = ''<class '' @ [APOSTROPHE] @ ''ValueError'' @ [APOSTROPHE] @ ''>''"
| "str_type (KeyError k) = ''<class '' @ [APOSTROPHE] @ ''KeyError'' @ [APOSTROPHE] @ ''>''"
| "str_type IndexError = ''<class '' @ [APOSTROPHE] @ ''IndexError'' @ [APOSTROPHE] @ ''>''"
| "str_type (OtherException cls msg) = cls"

fun str_exn :: "exn \<Rightarrow> string" where
  "str_exn ValueError = []"
| "str_exn (KeyError k) = repr k"
| "str_exn IndexError = ''list index out of range''"
| "str_exn (OtherException cls msg) = msg"

section \<open>The quote store\<close>

text \<open>Class \<^verbatim>\<open>Quotes\<close>: the list \<^verbatim>\<open>self.quotes\<close> and the file behind
  \<^verbatim>\<open>self.quotesfd\<close>, given by the characters it holds once every write has been
  flushed. The file is opened in text mode with the default \<^verbatim>\<open>newline=None\<close>: reading
  turns each of CR LF and CR into LF, and on a POSIX system writing leaves LF as it is.\<close>

record Quotes =
  quotes :: "string list"
  quotesfd :: string

fun universal_newlines :: "string \<Rightarrow> string" where
  "universal_newlines [] = []"
| "universal_newlines [c] = (if c = CR then [LF] else [c])"
| "universal_newlines (c # d # ds) =
     (if c = CR \<and> d = LF then LF # universal_newlines ds
      else if c = CR then LF # universal_newlines (d # ds)
      else c # universal_newlines (d # ds))"

text \<open>Iterating over a text file gives its lines, each with the line feed that ends it;
  a last line without one is given as it is.\<close>

fun file_lines :: "string \<Rightarrow> string list" where
  "file_lines [] = []"
| "file_lines (c # cs) =
     (if c = LF then [LF] # file_lines cs
      else (case file_lines cs of [] \<Rightarrow> [[c]] | l # ls \<Rightarrow> (c # l) # ls))"

definition rstrip :: "string \<Rightarrow> string \<Rightarrow> string" where
  "rstrip chars s = rev (dropWhile (\<lambda>c. c \<in> set chars) (rev s))"

definition read_quotes :: "Quotes \<Rightarrow> Quotes" where
  "read_quotes q =
     q\<lparr>quotes := map (rstrip [LF, CR]) (file_lines (universal_newlines (quotesfd q)))\<rparr>"

text \<open>\<^verbatim>\<open>Quotes.__init__\<close> on a file with the given characters.\<close>

definition Quotes_init :: "string \<Rightarrow> Quotes" where
  "Quotes_init file = read_quotes \<lparr>quotes = [], quotesfd = file\<rparr>"

text \<open>\<^verbatim>\<open>Quotes.add\<close> returns the exception it raises, if any, and the store as the call
  leaves it.\<close>

definition add :: "string \<Rightarrow> Quotes \<Rightarrow> exn option \<times> Quotes" where
  "add quote q =
     (if quote = [] \<or> LF \<in> set quote then (Some ValueError, q)
      else (None, q\<lparr>quotes := quotes q @ [quote], quotesfd := quotesfd q @ quote @ [LF]\<rparr>))"

definition len :: "Quotes \<Rightarrow> nat" where
  "len q = length (quotes q)"

text \<open>\<^verbatim>\<open>Quotes.__getitem__\<close> is Python's list indexing: from 0, a negative key counting
  from the end, \<^verbatim>\<open>IndexError\<close> out of range.\<close>

definition getitem :: "Quotes \<Rightarrow> int \<Rightarrow> exn + string" where
  "getitem q key =
     (let n = int (len q); j = (if key < 0 then key + n else key)
      in if 0 \<le> j \<and> j < n then Inr (quotes q ! nat j) else Inl IndexError)"

text \<open>\<^verbatim>\<open>x in bot.quotes\<close> goes through \<^verbatim>\<open>Quotes.__iter__\<close> and compares by equality.\<close>

definition contains :: "Quotes \<Rightarrow> string \<Rightarrow> bool" where
  "contains q x = (x \<in> set (quotes q))"

section \<open>The bot and its outbound effects\<close>

text \<open>An inbound chat message, as the transport library hands it over.\<close>

record event =
  source :: string
  target :: string
  message :: string

text \<open>What the bot asks of the transport library \<^verbatim>\<open>ircutils\<close>:
  \<^verbatim>\<open>send_message(target, line)\<close>, \<^verbatim>\<open>execute(command, target, trailing=text)\<close>
  and \<^verbatim>\<open>set_nickname(name)\<close>. The library is outside the repository; the model
  records the calls in the order they are made.\<close>

datatype action =
    Send_message string string
  | Execute string string string
  | Set_nickname string

text \<open>The state of class \<^verbatim>\<open>Eggy\<close> that the handlers read or write: the trigger
  word, the quote store, the dictionary \<^verbatim>\<open>topics\<close>, the current nickname (read by the
  logger), the calls made to the library, and the lines the logger has written to the
  chat log. \<^verbatim>\<open>Logger.on_message\<close>, which copies every inbound message to the chat log,
  is registered with the library on its own and is no part of the dispatch modelled
  here.\<close>

record bot =
  trigger :: string
  bot_quotes :: Quotes
  topics :: "string \<rightharpoonup> string"
  nickname :: string
  outbox :: "action list"
  chatlog :: "string list"

definition chatlogline :: "string \<Rightarrow> bot \<Rightarrow> bot" where
  "chatlogline line b = b\<lparr>chatlog := chatlog b @ [line]\<rparr>"

text \<open>\<^verbatim>\<open>Logger.fmt\<close> is \<^verbatim>\<open>"<{0}> {1}"\<close>.\<close>

definition fmt :: "string \<Rightarrow> string \<Rightarrow> string" where
  "fmt who line = ''<'' @ who @ ''> '' @ line"

definition logger_on_bot_message :: "string \<Rightarrow> string \<Rightarrow> bot \<Rightarrow> bot" where
  "logger_on_bot_message tgt line b = chatlogline (fmt (nickname b) line) b"

definition logger_error :: "string \<Rightarrow> bot \<Rightarrow> bot" where
  "logger_error msg b = chatlogline (''Error: '' @ msg) b"

definition send_message :: "string \<Rightarrow> string \<Rightarrow> bot \<Rightarrow> bot" where
  "send_message tgt line b = b\<lparr>outbox := outbox b @ [Send_message tgt line]\<rparr>"

definition say :: "string \<Rightarrow> string \<Rightarrow> bot \<Rightarrow> bot" where
  "say tgt line b = logger_on_bot_message tgt line (send_message tgt line b)"

definition respond :: "event \<Rightarrow> string \<Rightarrow> bot \<Rightarrow> bot" where
  "respond ev response b = say (target ev) response b"

definition change_topic :: "string \<Rightarrow> string \<Rightarrow> bot \<Rightarrow> bot" where
  "change_topic tgt topic b = b\<lparr>outbox := outbox b @ [Execute ''TOPIC'' tgt topic]\<rparr>"

definition set_nickname :: "string \<Rightarrow> bot \<Rightarrow> bot" where
  "set_nickname name b = b\<lparr>outbox := outbox b @ [Set_nickname name]\<rparr>"

definition topic_changed :: "string \<Rightarrow> string \<Rightarrow> bot \<Rightarrow> bot" where
  "topic_changed tgt topic b = b\<lparr>topics := (topics b)(tgt \<mapsto> topic)\<rparr>"

section \<open>The message handlers\<close>

text \<open>A handler function returns \<^verbatim>\<open>True\<close> or \<^verbatim>\<open>False\<close>, or raises; in each case
  it may have changed the bot.\<close>

datatype outcome = Returns bool | Raises exn

type_synonym handler = "event \<Rightarrow> bot \<Rightarrow> outcome \<times> bot"

subsection \<open>QuoteTrigger\<close>

text \<open>\<^verbatim>\<open>random.choice(seq)\<close> returns \<^verbatim>\<open>seq[k]\<close> for a random \<open>k\<close> below
  \<^verbatim>\<open>len(seq)\<close>. The draw is a parameter \<open>rnd\<close> of the model, reduced into range.\<close>

definition random_choice :: "nat \<Rightarrow> Quotes \<Rightarrow> exn + string" where
  "random_choice rnd q =
     (if len q = 0 then Inl IndexError else getitem q (int (rnd mod len q)))"

definition QuoteTrigger_on_message :: "nat \<Rightarrow> handler" where
  "QuoteTrigger_on_message rnd ev b =
     (let msg = message ev in
      if \<not> sublist (trigger b) msg then (Returns False, b)
      else if len (bot_quotes b) = 0 then (Returns True, respond ev ''No quotes'' b)
      else (case random_choice rnd (bot_quotes b) of
              Inl e \<Rightarrow> (Raises e, b)
            | Inr quote \<Rightarrow> (Returns True, respond ev quote b)))"

subsection \<open>Command, AddQuote and Rebirth\<close>

definition Command_on_message :: "string \<Rightarrow> (event \<Rightarrow> string \<Rightarrow> bot \<Rightarrow> outcome \<times> bot) \<Rightarrow> handler" where
  "Command_on_message command on_command ev b =
     (let prefix = trigger b @ '' '' @ command @ '' ''; msg = message ev in
      if \<not> Sublist.prefix prefix msg then (Returns False, b)
      else on_command ev (drop (length prefix) msg) b)"

text \<open>\<^verbatim>\<open>re.sub(re.compile(pat), rep, s)\<close> for a pattern and a replacement made of
  decimal digits only, as \<^verbatim>\<open>str\<close> of a count is: every occurrence of \<open>pat\<close>, found
  from the left and not overlapping an earlier one, is replaced by \<open>rep\<close>. The pattern
  is \<^verbatim>\<open>str\<close> of a number and so never empty; on an empty pattern, which Python would
  match between any two characters, the function of the model returns the text as it
  is.\<close>

function re_sub :: "string \<Rightarrow> string \<Rightarrow> string \<Rightarrow> string" where
  "re_sub pat rep [] = []"
| "re_sub pat rep (c # cs) =
     (if pat \<noteq> [] \<and> prefix pat (c # cs)
      then rep @ re_sub pat rep (drop (length pat) (c # cs))
      else c # re_sub pat rep cs)"
  by pat_completeness auto
termination
  by (relation "measure (\<lambda>(pat, rep, s). length s)") auto

declare re_sub.simps [simp del]

definition AddQuote_on_command :: "event \<Rightarrow> string \<Rightarrow> bot \<Rightarrow> outcome \<times> bot" where
  "AddQuote_on_command ev new_quote b =
     (if contains (bot_quotes b) new_quote then (Returns True, respond ev ''ooooold'' b)
      else (case add new_quote (bot_quotes b) of
          (Some e, q') \<Rightarrow> (Raises e, b\<lparr>bot_quotes := q'\<rparr>)
        | (None, q') \<Rightarrow>
            (let b1 = b\<lparr>bot_quotes := q'\<rparr>;
                 reply = ''Quote added. '' @ str_int (int (len q')) @ '' quotes in database''
             in (case topics b1 (target ev) of
                   None \<Rightarrow> (Raises (KeyError (target ev)), b1)
                 | Some topic \<Rightarrow>
                     if topic \<noteq> [] then
                       (let newtopic =
                              re_sub (str_int (int (len q') - 1)) (str_int (int (len q'))) topic
                        in if newtopic \<noteq> topic
                           then (Returns True, change_topic (target ev) newtopic b1)
                           else (Returns True, respond ev reply b1))
                     else (Returns True, respond ev reply b1)))))"

definition AddQuote_on_message :: handler where
  "AddQuote_on_message = Command_on_message ''add'' AddQuote_on_command"

text \<open>In Python a \<^verbatim>\<open>$\<close> matches at the end of the text and also just before a line
  feed that is its last character.\<close>

definition strip_final_LF :: "string \<Rightarrow> string" where
  "strip_final_LF s = (if s \<noteq> [] \<and> last s = LF then butlast s else s)"

definition is_alnum :: "char \<Rightarrow> bool" where
  "is_alnum c =
     (c \<in> set ''0123456789abcdefghijklmnopqrstuvwxyzABCDEFGHIJKLMNOPQRSTUVWXYZ'')"

text \<open>\<^verbatim>\<open>re.compile('^[0-9a-zA-Z]+$').match(args)\<close> is not \<^verbatim>\<open>None\<close>.\<close>

definition allowable_match :: "string \<Rightarrow> bool" where
  "allowable_match args = (let body = strip_final_LF args in body \<noteq> [] \<and> list_all is_alnum body)"

definition Rebirth_on_command :: "event \<Rightarrow> string \<Rightarrow> bot \<Rightarrow> outcome \<times> bot" where
  "Rebirth_on_command ev args b =
     (if \<not> allowable_match args then (Returns False, b)
      else (Returns True, set_nickname args b))"

definition Rebirth_on_message :: handler where
  "Rebirth_on_message = Command_on_message ''rebirth'' Rebirth_on_command"

subsection \<open>GetQuote\<close>

text \<open>The text \<open>q\<close> matches \<^verbatim>\<open>-?[1-9]\d*\<close> from its first to its last character.\<close>

definition is_index :: "string \<Rightarrow> bool" where
  "is_index q =
     (let ds = (case q of [] \<Rightarrow> [] | c # cs \<Rightarrow> if c = CHR ''-'' then cs else q)
      in (case ds of [] \<Rightarrow> False | d # ds' \<Rightarrow> is_digit d \<and> d \<noteq> CHR ''0'' \<and> list_all is_digit ds'))"

text \<open>\<^verbatim>\<open>re.compile('^#(-?[1-9]\d*)?$').match(msg)\<close>: \<open>None\<close> when there is no match,
  otherwise what group 1 holds, which is \<open>None\<close> when the group took no part.\<close>

definition trigger_match :: "string \<Rightarrow> string option option" where
  "trigger_match msg =
     (case msg of
        [] \<Rightarrow> None
      | c # rest \<Rightarrow>
          if c \<noteq> CHR ''#'' then None
          else (let body = strip_final_LF rest in
                if body = [] then Some None
                else if is_index body then Some (Some body)
                else None))"

definition GetQuote_on_message :: handler where
  "GetQuote_on_message ev b =
     (let msg = message ev in
      case trigger_match msg of
        None \<Rightarrow> (Returns False, b)
      | Some None \<Rightarrow> (Returns True, respond ev (str_int (int (len (bot_quotes b)))) b)
      | Some (Some query) \<Rightarrow>
          (let number = py_int query;
               number = (if number < 0 then number + (int (len (bot_quotes b)) + 1) else number)
           in if number > int (len (bot_quotes b)) \<or> number \<le> 0 then (Returns False, b)
              else (case getitem (bot_quotes b) (number - 1) of
                      Inl e \<Rightarrow> (Raises e, b)
                    | Inr quote \<Rightarrow> (Returns True, respond ev quote b))))"

section \<open>The dispatcher\<close>

text \<open>\<^verbatim>\<open>Eggy.message_handlers\<close> is a tuple of pairs \<^verbatim>\<open>(handler, fn)\<close>. Of the handler
  object the dispatcher uses \<^verbatim>\<open>str(handler)\<close> only, so a pair of the model holds that
  text and the function. \<^verbatim>\<open>Eggy.on_message\<close> is the loop over the tuple; an exception
  of class \<^verbatim>\<open>Exception\<close> is caught and reported to the logger in two lines.\<close>

type_synonym registry = "(string \<times> handler) list"

definition add_message_handler :: "string \<Rightarrow> handler \<Rightarrow> registry \<Rightarrow> registry" where
  "add_message_handler name fn hs = hs @ [(name, fn)]"

definition log_exception :: "string \<Rightarrow> exn \<Rightarrow> bot \<Rightarrow> bot" where
  "log_exception name err b =
     logger_error (str_exn err)
       (logger_error (''Handler '' @ name @ '' threw exception '' @ str_type err) b)"

fun on_message :: "registry \<Rightarrow> event \<Rightarrow> bot \<Rightarrow> bot" where
  "on_message [] ev b = b"
| "on_message ((name, fn) # rest) ev b =
     (case fn ev b of
        (Returns True, b') \<Rightarrow> b'
      | (Returns False, b') \<Rightarrow> on_message rest ev b'
      | (Raises err, b') \<Rightarrow> on_message rest ev (log_exception name err b'))"

text \<open>The handler classes define no \<^verbatim>\<open>__str__\<close>, so \<^verbatim>\<open>str(handler)\<close> is the default
  text of an object: module and class, then \<^verbatim>\<open>object at 0x\<close> and the address of the
  object in hexadecimal digits. The script runs as \<^verbatim>\<open>__main__\<close>.\<close>

definition object_str :: "string \<Rightarrow> string \<Rightarrow> string" where
  "object_str cls address = ''<__main__.'' @ cls @ '' object at 0x'' @ address @ ''>''"

text \<open>The four handler objects that \<^verbatim>\<open>Eggy.__init__\<close> creates and keeps in
  \<^verbatim>\<open>self.add_quote\<close>, \<^verbatim>\<open>self.get_quote\<close>, \<^verbatim>\<open>self.rebirth\<close> and
  \<^verbatim>\<open>self.quote_trigger\<close>. Their addresses differ from run to run: the hexadecimal
  digits of each are a parameter of the model.\<close>

record handler_ids =
  add_quote :: string
  get_quote :: string
  rebirth :: string
  quote_trigger :: string

text \<open>The registry that \<^verbatim>\<open>Eggy.__init__\<close> builds: \<^verbatim>\<open>AddQuote\<close>, \<^verbatim>\<open>GetQuote\<close>,
  \<^verbatim>\<open>Rebirth\<close>, \<^verbatim>\<open>QuoteTrigger\<close>, in this order.\<close>

definition message_handlers :: "handler_ids \<Rightarrow> nat \<Rightarrow> registry" where
  "message_handlers ids rnd =
     add_message_handler (object_str ''QuoteTrigger'' (quote_trigger ids)) (QuoteTrigger_on_message rnd)
       (add_message_handler (object_str ''Rebirth'' (rebirth ids)) Rebirth_on_message
         (add_message_handler (object_str ''GetQuote'' (get_quote ids)) GetQuote_on_message
           (add_message_handler (object_str ''AddQuote'' (add_quote ids)) AddQuote_on_message [])))"

text \<open>The bot as \<^verbatim>\<open>Eggy.__init__\<close> leaves it, on a quotes file with the given
  characters: trigger word \<^verbatim>\<open>eggpy\<close>, no topic known, nothing sent.\<close>

definition Eggy_init :: "string \<Rightarrow> bot" where
  "Eggy_init file =
     \<lparr>trigger = ''eggpy'', bot_quotes = Quotes_init file, topics = Map.empty,
      nickname = ''ravpython'', outbox = [], chatlog = []\<rparr>"

section \<open>Decimal numerals\<close>

lemma digit_char_cases:
  "d < 10 \<Longrightarrow> d = 0 \<or> d = 1 \<or> d = 2 \<or> d = 3 \<or> d = 4 \<or> d = 5 \<or> d = 6 \<or> d = 7 \<or> d = 8 \<or> d = (9::nat)"
  by arith

lemma digit_char_is_digit: "d < 10 \<Longrightarrow> is_digit (digit_char d)"
  using digit_char_cases [of d] by (auto simp: is_digit_def digit_char_def)

lemma digit_val_digit_char: "d < 10 \<Longrightarrow> digit_val (digit_char d) = d"
  using digit_char_cases [of d] by (auto simp: digit_val_def digit_char_def)

lemma digit_char_zero: "d < 10 \<Longrightarrow> digit_char d = CHR ''0'' \<longleftrightarrow> d = 0"
  using digit_char_cases [of d] by (auto simp: digit_char_def)

lemma str_nat_digits: "list_all is_digit (str_nat n)"
proof (induction n rule: str_nat.induct)
  case (1 n)
  show ?case
  proof (cases "n < 10")
    case True
    then show ?thesis by (subst str_nat.simps) (simp add: digit_char_is_digit)
  next
    case False
    with 1 show ?thesis by (subst str_nat.simps) (simp add: digit_char_is_digit)
  qed
qed

lemma str_nat_not_Nil: "str_nat n \<noteq> []"
  by (subst str_nat.simps) simp

lemma hd_str_nat: "0 < n \<Longrightarrow> hd (str_nat n) \<noteq> CHR ''0''"
proof (induction n rule: str_nat.induct)
  case (1 n)
  show ?case
  proof (cases "n < 10")
    case True
    with 1(2) show ?thesis by (subst str_nat.simps) (simp add: digit_char_zero)
  next
    case False
    then have "0 < n div 10" by simp
    with 1(1) False have "hd (str_nat (n div 10)) \<noteq> CHR ''0''" by simp
    with False show ?thesis by (subst str_nat.simps) (simp add: str_nat_not_Nil)
  qed
qed

lemma nat_of_digits_snoc: "nat_of_digits (ds @ [c]) = 10 * nat_of_digits ds + digit_val c"
  by (simp add: nat_of_digits_def)

lemma nat_of_digits_str_nat: "nat_of_digits (str_nat n) = n"
proof (induction n rule: str_nat.induct)
  case (1 n)
  show ?case
  proof (cases "n < 10")
    case True
    then show ?thesis
      by (subst str_nat.simps) (simp add: nat_of_digits_def digit_val_digit_char)
  next
    case False
    with 1 show ?thesis
      by (subst str_nat.simps) (simp add: nat_of_digits_snoc digit_val_digit_char)
  qed
qed

lemma is_digit_not_minus: "is_digit c \<Longrightarrow> c \<noteq> CHR ''-'' \<and> c \<noteq> LF \<and> c \<noteq> CHR ''#''"
  by (auto simp: is_digit_def)

lemma str_nat_chars: "c \<in> set (str_nat n) \<Longrightarrow> is_digit c"
  using str_nat_digits [of n] by (simp add: list_all_iff)

lemma hd_str_nat_not_minus: "hd (str_nat n) \<noteq> CHR ''-''"
  using str_nat_chars [of "hd (str_nat n)" n] str_nat_not_Nil [of n] is_digit_not_minus
  by (metis list.set_sel(1))

lemma is_index_str_nat: "0 < n \<Longrightarrow> is_index (str_nat n)"
  using str_nat_not_Nil [of n] hd_str_nat [of n] str_nat_digits [of n] hd_str_nat_not_minus [of n]
  by (cases "str_nat n") (auto simp: is_index_def)

lemma is_index_str_int: "i \<noteq> 0 \<Longrightarrow> is_index (str_int i)"
proof (cases "i < 0")
  case True
  then have "0 < nat (- i)" by simp
  from is_index_str_nat [OF this] hd_str_nat_not_minus [of "nat (- i)"] True
  show ?thesis by (cases "str_nat (nat (- i))") (auto simp: is_index_def str_int_def)
next
  case False
  assume "i \<noteq> 0"
  with False have "0 < nat i" by simp
  from is_index_str_nat [OF this] False show ?thesis by (simp add: str_int_def)
qed

lemma not_is_index_zero: "\<not> is_index (str_int 0)"
  by (simp add: str_int_def is_index_def str_nat.simps digit_char_def)

lemma py_int_nonneg: "q \<noteq> [] \<Longrightarrow> hd q \<noteq> CHR ''-'' \<Longrightarrow> py_int q = int (nat_of_digits q)"
  by (cases q) (simp_all add: py_int_def)

lemma py_int_str_int: "py_int (str_int i) = i"
proof (cases "i < 0")
  case True
  then show ?thesis by (simp add: py_int_def str_int_def nat_of_digits_str_nat)
next
  case False
  then have "py_int (str_int i) = int (nat_of_digits (str_nat (nat i)))"
    by (simp add: str_int_def py_int_nonneg str_nat_not_Nil hd_str_nat_not_minus)
  with False show ?thesis by (simp add: nat_of_digits_str_nat)
qed

lemma str_int_no_LF: "LF \<notin> set (str_int i)"
  using str_nat_chars is_digit_not_minus by (auto simp: str_int_def)

lemma str_int_not_Nil: "str_int i \<noteq> []"
  by (simp add: str_int_def str_nat_not_Nil)

lemma strip_final_LF_id: "LF \<notin> set s \<Longrightarrow> strip_final_LF s = s"
  unfolding strip_final_LF_def by (metis last_in_set)

lemma trigger_match_index:
  "trigger_match (CHR ''#'' # str_int i) = (if i = 0 then None else Some (Some (str_int i)))"
  using is_index_str_int [of i] not_is_index_zero
  by (simp add: trigger_match_def strip_final_LF_id str_int_no_LF str_int_not_Nil)


section \<open>Facts about the pattern of GetQuote and about the dispatcher\<close>

lemma strip_final_LF_set: "set (strip_final_LF s) \<subseteq> set s \<and> set s \<subseteq> insert LF (set (strip_final_LF s))"
proof (cases "s \<noteq> [] \<and> last s = LF")
  case True
  then have "s = butlast s @ [LF]" by (metis append_butlast_last_id)
  then have "set s = insert LF (set (butlast s))" by (metis list.simps(15) rotate1.simps(2) set_rotate1)
  with True show ?thesis by (auto simp: strip_final_LF_def)
next
  case False
  then show ?thesis by (auto simp: strip_final_LF_def)
qed

lemma is_index_chars: "is_index q \<Longrightarrow> c \<in> set q \<Longrightarrow> c = CHR ''-'' \<or> is_digit c"
  by (cases q) (auto simp: is_index_def list_all_iff split: if_splits list.splits)

lemma trigger_match_chars:
  assumes "trigger_match msg = Some r" and "c \<in> set msg"
  shows "c = CHR ''#'' \<or> c = LF \<or> c = CHR ''-'' \<or> is_digit c"
proof -
  from assms(1) obtain rest where msg: "msg = CHR ''#'' # rest"
    by (cases msg) (auto simp: trigger_match_def split: if_splits)
  show ?thesis
  proof (cases "c \<in> set (strip_final_LF rest)")
    case True
    with assms(1) msg have "is_index (strip_final_LF rest)"
      by (auto simp: trigger_match_def Let_def split: if_splits)
    with True show ?thesis using is_index_chars by blast
  next
    case False
    with assms(2) msg strip_final_LF_set [of rest] show ?thesis by auto
  qed
qed

lemma trigger_match_no_eggpy:
  assumes "trigger_match msg = Some r"
  shows "\<not> sublist ''eggpy'' msg" and "\<not> prefix (''eggpy'' @ rest) msg"
proof -
  have e: "CHR ''e'' \<notin> set msg"
    using trigger_match_chars [OF assms, of "CHR ''e''"] by (auto simp: is_digit_def)
  show "\<not> sublist ''eggpy'' msg"
    using set_mono_sublist [of "''eggpy''" msg] e by auto
  show "\<not> prefix (''eggpy'' @ rest) msg"
    using set_mono_prefix [of "''eggpy'' @ rest" msg] e by auto
qed

lemma GetQuote_out_of_range:
  assumes "trigger_match (message ev) = Some (Some query)"
    and "(if py_int query < 0 then py_int query + (int (len (bot_quotes b)) + 1) else py_int query) < 1
         \<or> int (len (bot_quotes b)) <
            (if py_int query < 0 then py_int query + (int (len (bot_quotes b)) + 1) else py_int query)"
  shows "GetQuote_on_message ev b = (Returns False, b)"
  using assms by (auto simp add: GetQuote_on_message_def Let_def)

lemma dispatch_unmatched:
  assumes "trigger b = ''eggpy''" and "\<not> sublist ''eggpy'' (message ev)"
    and "\<And>rest. \<not> prefix (''eggpy'' @ rest) (message ev)"
    and "GetQuote_on_message ev b = (Returns False, b)"
  shows "on_message (message_handlers ids rnd) ev b = b"
  using assms
  by (simp add: message_handlers_def add_message_handler_def AddQuote_on_message_def
      Rebirth_on_message_def Command_on_message_def QuoteTrigger_on_message_def)

lemma on_message_append:
  "\<forall>i<length pre. fst (snd (pre ! i) ev (on_message (take i pre) ev b)) \<noteq> Returns True \<Longrightarrow>
     on_message (pre @ post) ev b = on_message post ev (on_message pre ev b)"
proof (induction pre arbitrary: b)
  case Nil
  then show ?case by simp
next
  case (Cons h pre)
  obtain name fn where h: "h = (name, fn)" by (cases h)
  obtain r b' where r: "fn ev b = (r, b')" by (cases "fn ev b")
  from Cons.prems [rule_format, of 0] h r have nt: "r \<noteq> Returns True" by simp
  show ?case
  proof (cases r)
    case (Returns x)
    with nt have x: "x = False" by simp
    have "\<forall>i<length pre. fst (snd (pre ! i) ev (on_message (take i pre) ev b')) \<noteq> Returns True"
    proof (intro allI impI)
      fix i assume "i < length pre"
      with Cons.prems [rule_format, of "Suc i"] h r Returns x
      show "fst (snd (pre ! i) ev (on_message (take i pre) ev b')) \<noteq> Returns True" by simp
    qed
    from Cons.IH [OF this] h r Returns x show ?thesis by simp
  next
    case (Raises err)
    have "\<forall>i<length pre. fst (snd (pre ! i) ev (on_message (take i pre) ev (log_exception name err b'))) \<noteq> Returns True"
    proof (intro allI impI)
      fix i assume "i < length pre"
      with Cons.prems [rule_format, of "Suc i"] h r Raises
      show "fst (snd (pre ! i) ev (on_message (take i pre) ev (log_exception name err b'))) \<noteq> Returns True" by simp
    qed
    from Cons.IH [OF this] h r Raises show ?thesis by simp
  qed
qed

lemma on_message_split:
  assumes "k \<le> length hs"
    and "\<forall>i<k. fst (snd (hs ! i) ev (on_message (take i hs) ev b)) \<noteq> Returns True"
  shows "on_message hs ev b = on_message (drop k hs) ev (on_message (take k hs) ev b)"
proof -
  have "\<forall>i<length (take k hs). fst (snd (take k hs ! i) ev (on_message (take i (take k hs)) ev b)) \<noteq> Returns True"
    using assms by (simp add: min_def)
  from on_message_append [OF this, of "drop k hs"] show ?thesis by simp
qed

lemma chatlog_log_exception:
  "chatlog (log_exception name err b) =
     chatlog b @ [''Error: Handler '' @ name @ '' threw exception '' @ str_type err, ''Error: '' @ str_exn err]"
  by (simp add: log_exception_def logger_error_def chatlogline_def)


section \<open>Facts about the handlers\<close>

lemma message_handlers_list:
  "message_handlers ids rnd =
     [(object_str ''AddQuote'' (add_quote ids), AddQuote_on_message), (object_str ''GetQuote'' (get_quote ids), GetQuote_on_message),
      (object_str ''Rebirth'' (rebirth ids), Rebirth_on_message), (object_str ''QuoteTrigger'' (quote_trigger ids), QuoteTrigger_on_message rnd)]"
  by (simp add: message_handlers_def add_message_handler_def)

lemma Command_on_message_prefix:
  "message ev = trigger b @ '' '' @ command @ '' '' @ args \<Longrightarrow>
     Command_on_message command on_command ev b = on_command ev args b"
  by (simp add: Command_on_message_def)

lemma respond_fields:
  "outbox (respond ev r b) = outbox b @ [Send_message (target ev) r]"
  "bot_quotes (respond ev r b) = bot_quotes b"
  "trigger (respond ev r b) = trigger b"
  "topics (respond ev r b) = topics b"
  "chatlog (respond ev r b) = chatlog b @ [fmt (nickname b) r]"
  by (simp_all add: respond_def say_def send_message_def logger_on_bot_message_def chatlogline_def)

lemma log_exception_fields:
  "outbox (log_exception n e b) = outbox b"
  "bot_quotes (log_exception n e b) = bot_quotes b"
  "trigger (log_exception n e b) = trigger b"
  "topics (log_exception n e b) = topics b"
  by (simp_all add: log_exception_def logger_error_def chatlogline_def)

lemma AddQuote_frame:
  "fst (AddQuote_on_message ev s) \<noteq> Returns True \<Longrightarrow>
     trigger (snd (AddQuote_on_message ev s)) = trigger s \<and>
     outbox (snd (AddQuote_on_message ev s)) = outbox s"
  by (auto simp: AddQuote_on_message_def Command_on_message_def AddQuote_on_command_def add_def Let_def
      split: if_splits option.splits)

lemma GetQuote_frame:
  "fst (GetQuote_on_message ev s) \<noteq> Returns True \<Longrightarrow>
     trigger (snd (GetQuote_on_message ev s)) = trigger s \<and>
     outbox (snd (GetQuote_on_message ev s)) = outbox s"
  by (auto simp: GetQuote_on_message_def Let_def split: if_splits option.splits sum.splits)

lemma Rebirth_frame:
  "fst (Rebirth_on_message ev s) \<noteq> Returns True \<Longrightarrow>
     trigger (snd (Rebirth_on_message ev s)) = trigger s \<and>
     outbox (snd (Rebirth_on_message ev s)) = outbox s"
  by (auto simp: Rebirth_on_message_def Command_on_message_def Rebirth_on_command_def Let_def
      split: if_splits)

lemma on_message_declined_frame:
  assumes "\<forall>h\<in>set hs. \<forall>s. fst (snd h ev s) \<noteq> Returns True \<longrightarrow>
             trigger (snd (snd h ev s)) = trigger s \<and> outbox (snd (snd h ev s)) = outbox s"
    and "\<forall>i<length hs. fst (snd (hs ! i) ev (on_message (take i hs) ev b)) \<noteq> Returns True"
  shows "trigger (on_message hs ev b) = trigger b \<and> outbox (on_message hs ev b) = outbox b"
  using assms
proof (induction hs arbitrary: b)
  case Nil
  then show ?case by simp
next
  case (Cons h hs)
  obtain name fn where h: "h = (name, fn)" by (cases h)
  obtain r b' where r: "fn ev b = (r, b')" by (cases "fn ev b")
  from Cons.prems(2) [rule_format, of 0] h r have nt: "r \<noteq> Returns True" by simp
  with Cons.prems(1) h r have fr: "trigger b' = trigger b \<and> outbox b' = outbox b"
    by (metis fst_conv list.set_intros(1) snd_conv)
  have fr_rest: "\<forall>h\<in>set hs. \<forall>s. fst (snd h ev s) \<noteq> Returns True \<longrightarrow>
             trigger (snd (snd h ev s)) = trigger s \<and> outbox (snd (snd h ev s)) = outbox s"
    using Cons.prems(1) by simp
  show ?case
  proof (cases r)
    case (Returns x)
    with nt have x: "x = False" by simp
    have "\<forall>i<length hs. fst (snd (hs ! i) ev (on_message (take i hs) ev b')) \<noteq> Returns True"
    proof (intro allI impI)
      fix i assume "i < length hs"
      with Cons.prems(2) [rule_format, of "Suc i"] h r Returns x
      show "fst (snd (hs ! i) ev (on_message (take i hs) ev b')) \<noteq> Returns True" by simp
    qed
    from Cons.IH [OF fr_rest this] h r Returns x fr show ?thesis by simp
  next
    case (Raises err)
    have "\<forall>i<length hs. fst (snd (hs ! i) ev (on_message (take i hs) ev (log_exception name err b'))) \<noteq> Returns True"
    proof (intro allI impI)
      fix i assume "i < length hs"
      with Cons.prems(2) [rule_format, of "Suc i"] h r Raises
      show "fst (snd (hs ! i) ev (on_message (take i hs) ev (log_exception name err b'))) \<noteq> Returns True" by simp
    qed
    from Cons.IH [OF fr_rest this] h r Raises fr show ?thesis by (simp add: log_exception_fields)
  qed
qed

lemma QuoteTrigger_answers:
  assumes "sublist (trigger s) (message ev)"
  shows "\<exists>reply. QuoteTrigger_on_message rnd ev s = (Returns True, respond ev reply s) \<and>
           (reply = ''No quotes'' \<and> quotes (bot_quotes s) = [] \<or> reply \<in> set (quotes (bot_quotes s)))"
proof (cases "len (bot_quotes s) = 0")
  case True
  with assms show ?thesis by (simp add: QuoteTrigger_on_message_def len_def)
next
  case False
  then have "rnd mod len (bot_quotes s) < len (bot_quotes s)" by simp
  then have "quotes (bot_quotes s) ! (rnd mod len (bot_quotes s)) \<in> set (quotes (bot_quotes s))"
    by (simp add: len_def)
  moreover from False assms have "QuoteTrigger_on_message rnd ev s =
      (Returns True, respond ev (quotes (bot_quotes s) ! (rnd mod len (bot_quotes s))) s)"
    by (simp add: QuoteTrigger_on_message_def random_choice_def getitem_def len_def)
  ultimately show ?thesis by blast
qed

section \<open>The quote store: adding\<close>

text \<open>
  Claim C3. \<^verbatim>\<open>Quotes.add\<close> should refuse a text that is empty or holds a line break, with
  \<^verbatim>\<open>ValueError\<close> (the spec's InvalidQuote) and the store left as it was. The guard of the
  source tests for the empty text and for the line feed \<^verbatim>\<open>'\n'\<close>, and there the call
  raises and changes neither the list nor the file. It does not test for the carriage
  return, which ends a line for the reader of the file as well: a text that is not empty
  and holds a carriage return and no line feed is accepted, the call returns normally and
  the count is one more than before. This is where the code departs from the claim.
\<close>

theorem add_refuses_line_feed_only:
  "(quote = [] \<or> LF \<in> set quote \<longrightarrow>
      add quote q = (Some ValueError, q) \<and> len (snd (add quote q)) = len q)
   \<and> (quote \<noteq> [] \<and> LF \<notin> set quote \<and> CR \<in> set quote \<longrightarrow>
      fst (add quote q) = None \<and> len (snd (add quote q)) = len q + 1 \<and>
      quotes (snd (add quote q)) = quotes q @ [quote] \<and>
      quotesfd (snd (add quote q)) = quotesfd q @ quote @ [LF])"
  by (simp add: add_def len_def)

theorem add_refuses_line_feed_only_witness:
  "add [] (Quotes_init [CHR ''x'', LF]) = (Some ValueError, Quotes_init [CHR ''x'', LF])
   \<and> add [CHR ''a'', LF, CHR ''b''] (Quotes_init [CHR ''x'', LF])
       = (Some ValueError, Quotes_init [CHR ''x'', LF])
   \<and> len (Quotes_init [CHR ''x'', LF]) = 1
   \<and> fst (add [CHR ''a'', CR, CHR ''b''] (Quotes_init [CHR ''x'', LF])) = None
   \<and> len (snd (add [CHR ''a'', CR, CHR ''b''] (Quotes_init [CHR ''x'', LF]))) = 2
   \<and> quotes (read_quotes (snd (add [CHR ''a'', CR, CHR ''b''] (Quotes_init [CHR ''x'', LF]))))
       = [''x'', ''a'', ''b'']"
proof -
  let ?q = "Quotes_init [CHR ''x'', LF]"
  have l: "len ?q = 1" by code_simp
  have r: "quotes (read_quotes (snd (add [CHR ''a'', CR, CHR ''b''] ?q))) = [''x'', ''a'', ''b'']"
    by code_simp
  have e: "add [] ?q = (Some ValueError, ?q)"
    using add_refuses_line_feed_only [of "[]" ?q] by simp
  have f: "add [CHR ''a'', LF, CHR ''b''] ?q = (Some ValueError, ?q)"
    using add_refuses_line_feed_only [of "[CHR ''a'', LF, CHR ''b'']" ?q] by simp
  have c: "fst (add [CHR ''a'', CR, CHR ''b''] ?q) = None \<and>
      len (snd (add [CHR ''a'', CR, CHR ''b''] ?q)) = len ?q + 1"
    using add_refuses_line_feed_only [of "[CHR ''a'', CR, CHR ''b'']" ?q] by simp
  from e f c l r show ?thesis by (simp only:) simp
qed

text \<open>
  Claim C4. For a text \<open>s\<close> that is not empty, holds no line feed and is not in the store
  yet, \<^verbatim>\<open>add(s)\<close> returns normally, the count is one more than before, and the quote at
  the position of the new count is \<open>s\<close>. Position \<open>n\<close> counted from 1 is
  \<^verbatim>\<open>quotes[n - 1]\<close>, as \<^verbatim>\<open>GetQuote\<close> reads it.
\<close>

theorem add_valid_appends:
  "s \<noteq> [] \<Longrightarrow> LF \<notin> set s \<Longrightarrow> \<not> contains q s \<Longrightarrow>
     fst (add s q) = None \<and>
     len (snd (add s q)) = len q + 1 \<and>
     getitem (snd (add s q)) (int (len (snd (add s q))) - 1) = Inr s"
  by (simp add: add_def len_def getitem_def)

theorem add_valid_appends_witness:
  "fst (add ''def'' (Quotes_init [CHR ''a'', CHR ''b'', CHR ''c'', LF])) = None \<and>
   len (Quotes_init [CHR ''a'', CHR ''b'', CHR ''c'', LF]) = 1 \<and>
   len (snd (add ''def'' (Quotes_init [CHR ''a'', CHR ''b'', CHR ''c'', LF]))) = 2 \<and>
   getitem (snd (add ''def'' (Quotes_init [CHR ''a'', CHR ''b'', CHR ''c'', LF]))) (2 - 1) = Inr ''def''"
proof -
  have c: "\<not> contains (Quotes_init [CHR ''a'', CHR ''b'', CHR ''c'', LF]) ''def''" by code_simp
  have l: "len (Quotes_init [CHR ''a'', CHR ''b'', CHR ''c'', LF]) = 1" by code_simp
  have n: "''def'' \<noteq> []" "LF \<notin> set ''def''" by simp_all
  have "fst (add ''def'' (Quotes_init [CHR ''a'', CHR ''b'', CHR ''c'', LF])) = None \<and>
     len (snd (add ''def'' (Quotes_init [CHR ''a'', CHR ''b'', CHR ''c'', LF]))) = 1 + 1 \<and>
     getitem (snd (add ''def'' (Quotes_init [CHR ''a'', CHR ''b'', CHR ''c'', LF])))
       (int (len (snd (add ''def'' (Quotes_init [CHR ''a'', CHR ''b'', CHR ''c'', LF])))) - 1) = Inr ''def''"
    using add_valid_appends [OF n c] unfolding l .
  then show ?thesis using l by auto
qed

section \<open>GetQuote: positions counted from either end\<close>

text \<open>
  Claim C5. In a store of \<open>c\<close> quotes and for \<open>1 \<le> n \<le> c\<close>, the messages \<^verbatim>\<open>#n\<close> and
  \<^verbatim>\<open>#(n - c - 1)\<close> are both handled, and both reply with the same quote, the one at
  position \<open>n\<close> counted from 1.
\<close>

theorem negative_index_equivalence:
  "1 \<le> n \<Longrightarrow> n \<le> int (len (bot_quotes b)) \<Longrightarrow>
     GetQuote_on_message (ev\<lparr>message := CHR ''#'' # str_int n\<rparr>) b
       = (Returns True, respond ev (quotes (bot_quotes b) ! nat (n - 1)) b)
   \<and> GetQuote_on_message (ev\<lparr>message := CHR ''#'' # str_int (n - int (len (bot_quotes b)) - 1)\<rparr>) b
       = (Returns True, respond ev (quotes (bot_quotes b) ! nat (n - 1)) b)"
  by (simp add: GetQuote_on_message_def trigger_match_index py_int_str_int getitem_def respond_def)

theorem negative_index_equivalence_witness:
  "GetQuote_on_message \<lparr>source = ''alice'', target = ''#ravpython'', message = ''#3''\<rparr>
      (Eggy_init [CHR ''a'', LF, CHR ''b'', LF, CHR ''c'', LF])
     = (Returns True, respond \<lparr>source = ''alice'', target = ''#ravpython'', message = ''#-1''\<rparr> ''c''
          (Eggy_init [CHR ''a'', LF, CHR ''b'', LF, CHR ''c'', LF]))
   \<and> GetQuote_on_message \<lparr>source = ''alice'', target = ''#ravpython'', message = ''#-1''\<rparr>
      (Eggy_init [CHR ''a'', LF, CHR ''b'', LF, CHR ''c'', LF])
     = (Returns True, respond \<lparr>source = ''alice'', target = ''#ravpython'', message = ''#-1''\<rparr> ''c''
          (Eggy_init [CHR ''a'', LF, CHR ''b'', LF, CHR ''c'', LF]))"
proof -
  have l: "int (len (bot_quotes (Eggy_init [CHR ''a'', LF, CHR ''b'', LF, CHR ''c'', LF]))) = 3"
    and q: "quotes (bot_quotes (Eggy_init [CHR ''a'', LF, CHR ''b'', LF, CHR ''c'', LF])) ! nat (3 - 1) = ''c''"
    by code_simp+
  have s3: "CHR ''#'' # str_int 3 = ''#3''" and s1: "CHR ''#'' # str_int (3 - 3 - 1) = ''#-1''"
    by code_simp+
  have h: "1 \<le> (3::int)" "3 \<le> int (len (bot_quotes (Eggy_init [CHR ''a'', LF, CHR ''b'', LF, CHR ''c'', LF])))"
    by (simp_all add: l)
  show ?thesis
    using negative_index_equivalence [OF h,
        of "\<lparr>source = ''alice'', target = ''#ravpython'', message = ''#-1''\<rparr>"]
    unfolding l q s3 s1 by (simp add: respond_def)
qed

text \<open>
  Claim C6. A message that matches the pattern of \<^verbatim>\<open>GetQuote\<close> with an index whose
  resolved value is below 1 or above the count, and the message \<^verbatim>\<open>#0\<close>, which the
  pattern does not match: the handler returns \<^verbatim>\<open>False\<close>, raises nothing and leaves the
  bot as it was, so it sends nothing. In the bot with the trigger word \<^verbatim>\<open>eggpy\<close> no
  other handler answers either: the whole dispatch leaves the bot as it was.
\<close>

theorem out_of_range_not_handled:
  assumes "trigger_match (message ev) = Some (Some query) \<and>
    ((if py_int query < 0 then py_int query + (int (len (bot_quotes b)) + 1) else py_int query) < 1
      \<or> int (len (bot_quotes b)) <
         (if py_int query < 0 then py_int query + (int (len (bot_quotes b)) + 1) else py_int query))
    \<or> message ev = ''#0''"
  shows "GetQuote_on_message ev b = (Returns False, b) \<and>
       (trigger b = ''eggpy'' \<longrightarrow> on_message (message_handlers ids rnd) ev b = b)"
proof -
  from assms consider
    (index) "trigger_match (message ev) = Some (Some query)"
      "(if py_int query < 0 then py_int query + (int (len (bot_quotes b)) + 1) else py_int query) < 1
      \<or> int (len (bot_quotes b)) <
         (if py_int query < 0 then py_int query + (int (len (bot_quotes b)) + 1) else py_int query)"
    | (zero) "message ev = ''#0''"
    by blast
  then show ?thesis
  proof cases
    case index
    have g: "GetQuote_on_message ev b = (Returns False, b)"
      using index by (rule GetQuote_out_of_range)
    with trigger_match_no_eggpy [OF index(1)] show ?thesis
      by (auto intro: dispatch_unmatched)
  next
    case zero
    have g: "GetQuote_on_message ev b = (Returns False, b)"
      using zero
      by (simp add: GetQuote_on_message_def trigger_match_def strip_final_LF_def is_index_def is_digit_def)
    have "\<not> sublist ''eggpy'' (message ev)" using zero by (simp add: sublist_Cons_right)
    moreover have "\<And>rest. \<not> prefix (''eggpy'' @ rest) (message ev)" using zero by simp
    ultimately show ?thesis using g by (auto intro: dispatch_unmatched)
  qed
qed

theorem out_of_range_not_handled_witness:
  "on_message (message_handlers \<lparr>add_quote = ''7f3a5c1d2e80'', get_quote = ''7f3a5c1d2eb0'', rebirth = ''7f3a5c1d2ee0'', quote_trigger = ''7f3a5c1d2f10''\<rparr> 0) \<lparr>source = ''alice'', target = ''#ravpython'', message = ''#-4''\<rparr>
      (Eggy_init [CHR ''a'', LF, CHR ''b'', LF, CHR ''c'', LF])
     = Eggy_init [CHR ''a'', LF, CHR ''b'', LF, CHR ''c'', LF]
   \<and> on_message (message_handlers \<lparr>add_quote = ''7f3a5c1d2e80'', get_quote = ''7f3a5c1d2eb0'', rebirth = ''7f3a5c1d2ee0'', quote_trigger = ''7f3a5c1d2f10''\<rparr> 0) \<lparr>source = ''alice'', target = ''#ravpython'', message = ''#4''\<rparr>
      (Eggy_init [CHR ''a'', LF, CHR ''b'', LF, CHR ''c'', LF])
     = Eggy_init [CHR ''a'', LF, CHR ''b'', LF, CHR ''c'', LF]
   \<and> on_message (message_handlers \<lparr>add_quote = ''7f3a5c1d2e80'', get_quote = ''7f3a5c1d2eb0'', rebirth = ''7f3a5c1d2ee0'', quote_trigger = ''7f3a5c1d2f10''\<rparr> 0) \<lparr>source = ''alice'', target = ''#ravpython'', message = ''#0''\<rparr>
      (Eggy_init [CHR ''a'', LF, CHR ''b'', LF, CHR ''c'', LF])
     = Eggy_init [CHR ''a'', LF, CHR ''b'', LF, CHR ''c'', LF]"
proof -
  have l: "len (bot_quotes (Eggy_init [CHR ''a'', LF, CHR ''b'', LF, CHR ''c'', LF])) = 3"
    by code_simp
  have t: "trigger (Eggy_init [CHR ''a'', LF, CHR ''b'', LF, CHR ''c'', LF]) = ''eggpy''"
    by (simp add: Eggy_init_def)
  have m1: "trigger_match ''#-4'' = Some (Some ''-4'')" and p1: "py_int ''-4'' = - 4"
    and m2: "trigger_match ''#4'' = Some (Some ''4'')" and p2: "py_int ''4'' = 4"
    by code_simp+
  from out_of_range_not_handled [of "\<lparr>source = ''alice'', target = ''#ravpython'', message = ''#-4''\<rparr>"
      "''-4''" "Eggy_init [CHR ''a'', LF, CHR ''b'', LF, CHR ''c'', LF]"
      "\<lparr>add_quote = ''7f3a5c1d2e80'', get_quote = ''7f3a5c1d2eb0'', rebirth = ''7f3a5c1d2ee0'', quote_trigger = ''7f3a5c1d2f10''\<rparr>" 0]
    out_of_range_not_handled [of "\<lparr>source = ''alice'', target = ''#ravpython'', message = ''#4''\<rparr>"
      "''4''" "Eggy_init [CHR ''a'', LF, CHR ''b'', LF, CHR ''c'', LF]"
      "\<lparr>add_quote = ''7f3a5c1d2e80'', get_quote = ''7f3a5c1d2eb0'', rebirth = ''7f3a5c1d2ee0'', quote_trigger = ''7f3a5c1d2f10''\<rparr>" 0]
    out_of_range_not_handled [of "\<lparr>source = ''alice'', target = ''#ravpython'', message = ''#0''\<rparr>"
      "''0''" "Eggy_init [CHR ''a'', LF, CHR ''b'', LF, CHR ''c'', LF]"
      "\<lparr>add_quote = ''7f3a5c1d2e80'', get_quote = ''7f3a5c1d2eb0'', rebirth = ''7f3a5c1d2ee0'', quote_trigger = ''7f3a5c1d2f10''\<rparr>" 0]
  show ?thesis by (simp add: l t m1 p1 m2 p2)
qed

section \<open>The dispatcher: order, first match, exceptions\<close>

text \<open>
  Claim C2. \<^verbatim>\<open>Eggy.on_message\<close> calls the handler functions in the order of the
  registry, each on the bot as the earlier ones left it. As long as no handler before
  position \<open>k\<close> has returned \<^verbatim>\<open>True\<close>, the handler at position \<open>k\<close> is called: if it
  returns \<^verbatim>\<open>True\<close>, the dispatch ends there and the handlers after it play no part; if it
  returns \<^verbatim>\<open>False\<close>, the dispatch goes on with the handlers after it; if it raises, the
  logger gets two lines, the first with the text of the handler and the type of the
  exception, the second with the text of the exception, and the dispatch goes on with the
  handlers after it.
\<close>

theorem dispatch_in_order:
  assumes "k < length hs"
    and "\<forall>i<k. fst (snd (hs ! i) ev (on_message (take i hs) ev b)) \<noteq> Returns True"
  shows "(case snd (hs ! k) ev (on_message (take k hs) ev b) of
            (Returns True, b') \<Rightarrow> on_message hs ev b = b'
          | (Returns False, b') \<Rightarrow> on_message hs ev b = on_message (drop (Suc k) hs) ev b'
          | (Raises err, b') \<Rightarrow>
              on_message hs ev b = on_message (drop (Suc k) hs) ev (log_exception (fst (hs ! k)) err b') \<and>
              chatlog (log_exception (fst (hs ! k)) err b') =
                chatlog b' @ [''Error: Handler '' @ fst (hs ! k) @ '' threw exception '' @ str_type err,
                              ''Error: '' @ str_exn err])"
proof -
  from assms have split: "on_message hs ev b = on_message (drop k hs) ev (on_message (take k hs) ev b)"
    by (intro on_message_split) simp_all
  from assms(1) have d: "drop k hs = hs ! k # drop (Suc k) hs"
    by (simp add: Cons_nth_drop_Suc)
  obtain name fn where h: "hs ! k = (name, fn)" by (cases "hs ! k")
  show ?thesis
    unfolding split d h
    by (simp add: chatlog_log_exception split: prod.splits outcome.splits bool.splits)
qed

theorem dispatch_in_order_witness:
  "outbox (on_message (message_handlers \<lparr>add_quote = ''7f3a5c1d2e80'', get_quote = ''7f3a5c1d2eb0'', rebirth = ''7f3a5c1d2ee0'', quote_trigger = ''7f3a5c1d2f10''\<rparr> 0)
       \<lparr>source = ''alice'', target = ''#ravpython'', message = ''eggpy add hello world''\<rparr> (Eggy_init []))
     = [Send_message ''#ravpython'' ''hello world'']
   \<and> chatlog (on_message (message_handlers \<lparr>add_quote = ''7f3a5c1d2e80'', get_quote = ''7f3a5c1d2eb0'', rebirth = ''7f3a5c1d2ee0'', quote_trigger = ''7f3a5c1d2f10''\<rparr> 0)
       \<lparr>source = ''alice'', target = ''#ravpython'', message = ''eggpy add hello world''\<rparr> (Eggy_init []))
     = [''Error: Handler <__main__.AddQuote object at 0x7f3a5c1d2e80> threw exception <class ''
          @ [APOSTROPHE] @ ''KeyError'' @ [APOSTROPHE] @ ''>'',
        ''Error: '' @ [APOSTROPHE] @ ''#ravpython'' @ [APOSTROPHE],
        ''<ravpython> hello world'']"
proof -
  let ?hs = "message_handlers \<lparr>add_quote = ''7f3a5c1d2e80'', get_quote = ''7f3a5c1d2eb0'', rebirth = ''7f3a5c1d2ee0'', quote_trigger = ''7f3a5c1d2f10''\<rparr> 0"
  let ?ev = "\<lparr>source = ''alice'', target = ''#ravpython'', message = ''eggpy add hello world''\<rparr>"
  let ?b = "Eggy_init []"
  have len: "3 < length ?hs" by code_simp
  have d0: "fst (snd (?hs ! 0) ?ev (on_message (take 0 ?hs) ?ev ?b)) \<noteq> Returns True"
    and d1: "fst (snd (?hs ! 1) ?ev (on_message (take 1 ?hs) ?ev ?b)) \<noteq> Returns True"
    and d2: "fst (snd (?hs ! 2) ?ev (on_message (take 2 ?hs) ?ev ?b)) \<noteq> Returns True"
    by code_simp+
  have decl: "\<forall>i<3. fst (snd (?hs ! i) ?ev (on_message (take i ?hs) ?ev ?b)) \<noteq> Returns True"
  proof (intro allI impI)
    fix i :: nat assume "i < 3"
    then consider "i = 0" | "i = 1" | "i = 2" by linarith
    then show "fst (snd (?hs ! i) ?ev (on_message (take i ?hs) ?ev ?b)) \<noteq> Returns True"
      using d0 d1 d2 by cases simp_all
  qed
  have r: "fst (snd (?hs ! 3) ?ev (on_message (take 3 ?hs) ?ev ?b)) = Returns True" by code_simp
  have o: "outbox (snd (snd (?hs ! 3) ?ev (on_message (take 3 ?hs) ?ev ?b)))
      = [Send_message ''#ravpython'' ''hello world'']" by code_simp
  have c: "chatlog (snd (snd (?hs ! 3) ?ev (on_message (take 3 ?hs) ?ev ?b)))
      = [''Error: Handler <__main__.AddQuote object at 0x7f3a5c1d2e80> threw exception <class ''
          @ [APOSTROPHE] @ ''KeyError'' @ [APOSTROPHE] @ ''>'',
        ''Error: '' @ [APOSTROPHE] @ ''#ravpython'' @ [APOSTROPHE],
        ''<ravpython> hello world'']" by code_simp
  from dispatch_in_order [OF len decl] r
  have "on_message ?hs ?ev ?b = snd (snd (?hs ! 3) ?ev (on_message (take 3 ?hs) ?ev ?b))"
    by (cases "snd (?hs ! 3) ?ev (on_message (take 3 ?hs) ?ev ?b)") simp
  with o c show ?thesis by (simp only:)
qed

section \<open>AddQuote on a quote that the store already holds\<close>

text \<open>
  Claim C8. When the text after \<^verbatim>\<open><trigger> add \<close> is already in the store,
  \<^verbatim>\<open>AddQuote\<close> replies \<^verbatim>\<open>ooooold\<close> and returns \<^verbatim>\<open>True\<close>, so that the dispatch ends
  with that reply; the store (list and file) is as before, and so is the count.
\<close>

theorem duplicate_add_rejected:
  assumes "contains (bot_quotes b) new_quote"
    and "message ev = trigger b @ '' add '' @ new_quote"
  shows "AddQuote_on_message ev b = (Returns True, respond ev ''ooooold'' b)
       \<and> on_message (message_handlers ids rnd) ev b = respond ev ''ooooold'' b
       \<and> outbox (respond ev ''ooooold'' b) = outbox b @ [Send_message (target ev) ''ooooold'']
       \<and> bot_quotes (respond ev ''ooooold'' b) = bot_quotes b
       \<and> len (bot_quotes (on_message (message_handlers ids rnd) ev b)) = len (bot_quotes b)"
proof -
  have a: "AddQuote_on_message ev b = (Returns True, respond ev ''ooooold'' b)"
    using assms by (simp add: AddQuote_on_message_def Command_on_message_def AddQuote_on_command_def)
  then have "on_message (message_handlers ids rnd) ev b = respond ev ''ooooold'' b"
    by (simp add: message_handlers_list)
  with a show ?thesis by (simp add: respond_fields)
qed

theorem duplicate_add_rejected_witness:
  "on_message (message_handlers \<lparr>add_quote = ''7f3a5c1d2e80'', get_quote = ''7f3a5c1d2eb0'', rebirth = ''7f3a5c1d2ee0'', quote_trigger = ''7f3a5c1d2f10''\<rparr> 0)
      \<lparr>source = ''alice'', target = ''#ravpython'', message = ''eggpy add hello world''\<rparr>
      (Eggy_init (''hello world'' @ [LF]))
    = respond \<lparr>source = ''alice'', target = ''#ravpython'', message = ''eggpy add hello world''\<rparr>
        ''ooooold'' (Eggy_init (''hello world'' @ [LF]))
   \<and> len (bot_quotes (Eggy_init (''hello world'' @ [LF]))) = 1
   \<and> len (bot_quotes (on_message (message_handlers \<lparr>add_quote = ''7f3a5c1d2e80'', get_quote = ''7f3a5c1d2eb0'', rebirth = ''7f3a5c1d2ee0'', quote_trigger = ''7f3a5c1d2f10''\<rparr> 0)
      \<lparr>source = ''alice'', target = ''#ravpython'', message = ''eggpy add hello world''\<rparr>
      (Eggy_init (''hello world'' @ [LF])))) = 1"
proof -
  let ?ev = "\<lparr>source = ''alice'', target = ''#ravpython'', message = ''eggpy add hello world''\<rparr>"
  let ?b = "Eggy_init (''hello world'' @ [LF])"
  have c: "contains (bot_quotes ?b) ''hello world''" by code_simp
  have m: "message ?ev = trigger ?b @ '' add '' @ ''hello world''" by code_simp
  have l: "len (bot_quotes ?b) = 1" by code_simp
  from duplicate_add_rejected [OF c m, of "\<lparr>add_quote = ''7f3a5c1d2e80'', get_quote = ''7f3a5c1d2eb0'', rebirth = ''7f3a5c1d2ee0'', quote_trigger = ''7f3a5c1d2f10''\<rparr>" 0] l show ?thesis by simp
qed


section \<open>QuoteTrigger, the last handler\<close>

text \<open>
  Claim C10. When the message holds the trigger word and none of \<^verbatim>\<open>AddQuote\<close>,
  \<^verbatim>\<open>GetQuote\<close> and \<^verbatim>\<open>Rebirth\<close> returns \<^verbatim>\<open>True\<close> (each called on the bot as the
  earlier ones left it), the dispatch sends exactly one message to the target: a quote
  of the store, or \<^verbatim>\<open>No quotes\<close> when the store is empty. The message
  \<^verbatim>\<open>eggpy rebirth bot2!\<close> is such a message.
\<close>

theorem quote_trigger_answers_when_declined:
  assumes "sublist (trigger b) (message ev)"
    and "\<forall>i<3. fst (snd (message_handlers ids rnd ! i) ev (on_message (take i (message_handlers ids rnd)) ev b))
            \<noteq> Returns True"
  shows "\<exists>reply. outbox (on_message (message_handlers ids rnd) ev b) = outbox b @ [Send_message (target ev) reply]
           \<and> (reply = ''No quotes'' \<and> quotes (bot_quotes (on_message (message_handlers ids rnd) ev b)) = []
              \<or> reply \<in> set (quotes (bot_quotes (on_message (message_handlers ids rnd) ev b))))"
proof -
  let ?hs = "message_handlers ids rnd"
  let ?s = "on_message (take 3 ?hs) ev b"
  have len4: "length ?hs = 4" by (simp add: message_handlers_list)
  have split: "on_message ?hs ev b = on_message (drop 3 ?hs) ev ?s"
    using assms(2) by (intro on_message_split) (simp_all add: len4)
  have t3: "take 3 ?hs = [(object_str ''AddQuote'' (add_quote ids), AddQuote_on_message),
      (object_str ''GetQuote'' (get_quote ids), GetQuote_on_message), (object_str ''Rebirth'' (rebirth ids), Rebirth_on_message)]"
    and d3: "drop 3 ?hs = [(object_str ''QuoteTrigger'' (quote_trigger ids), QuoteTrigger_on_message rnd)]"
    by (simp_all add: message_handlers_list)
  have "\<forall>i<length (take 3 ?hs). fst (snd (take 3 ?hs ! i) ev (on_message (take i (take 3 ?hs)) ev b)) \<noteq> Returns True"
    using assms(2) by (simp add: len4 min_def)
  moreover have "\<forall>h\<in>set (take 3 ?hs). \<forall>s. fst (snd h ev s) \<noteq> Returns True \<longrightarrow>
             trigger (snd (snd h ev s)) = trigger s \<and> outbox (snd (snd h ev s)) = outbox s"
    unfolding t3 using AddQuote_frame GetQuote_frame Rebirth_frame by simp
  ultimately have fr: "trigger ?s = trigger b \<and> outbox ?s = outbox b"
    by (intro on_message_declined_frame)
  with assms(1) have "sublist (trigger ?s) (message ev)" by simp
  from QuoteTrigger_answers [OF this, of rnd] obtain reply where
    q: "QuoteTrigger_on_message rnd ev ?s = (Returns True, respond ev reply ?s)"
    and r: "reply = ''No quotes'' \<and> quotes (bot_quotes ?s) = [] \<or> reply \<in> set (quotes (bot_quotes ?s))"
    by blast
  from split q have "on_message ?hs ev b = respond ev reply ?s" unfolding d3 by simp
  with r fr show ?thesis by (auto simp: respond_fields)
qed


theorem quote_trigger_answers_when_declined_witness:
  "outbox (on_message (message_handlers \<lparr>add_quote = ''7f3a5c1d2e80'', get_quote = ''7f3a5c1d2eb0'', rebirth = ''7f3a5c1d2ee0'', quote_trigger = ''7f3a5c1d2f10''\<rparr> 0)
      \<lparr>source = ''alice'', target = ''#ravpython'', message = ''eggpy rebirth bot2!''\<rparr>
      (Eggy_init (''hello world'' @ [LF])))
    = [Send_message ''#ravpython'' ''hello world'']
   \<and> outbox (on_message (message_handlers \<lparr>add_quote = ''7f3a5c1d2e80'', get_quote = ''7f3a5c1d2eb0'', rebirth = ''7f3a5c1d2ee0'', quote_trigger = ''7f3a5c1d2f10''\<rparr> 0)
      \<lparr>source = ''alice'', target = ''#ravpython'', message = ''eggpy rebirth bot2!''\<rparr>
      (Eggy_init []))
    = [Send_message ''#ravpython'' ''No quotes'']"
proof -
  let ?hs = "message_handlers \<lparr>add_quote = ''7f3a5c1d2e80'', get_quote = ''7f3a5c1d2eb0'', rebirth = ''7f3a5c1d2ee0'', quote_trigger = ''7f3a5c1d2f10''\<rparr> 0"
  let ?ev = "\<lparr>source = ''alice'', target = ''#ravpython'', message = ''eggpy rebirth bot2!''\<rparr>"
  let ?b = "Eggy_init (''hello world'' @ [LF])"
  have t: "sublist (trigger ?b) (message ?ev)" by code_simp
  have d0: "fst (snd (?hs ! 0) ?ev (on_message (take 0 ?hs) ?ev ?b)) \<noteq> Returns True"
    and d1: "fst (snd (?hs ! 1) ?ev (on_message (take 1 ?hs) ?ev ?b)) \<noteq> Returns True"
    and d2: "fst (snd (?hs ! 2) ?ev (on_message (take 2 ?hs) ?ev ?b)) \<noteq> Returns True"
    by code_simp+
  have decl: "\<forall>i<3. fst (snd (?hs ! i) ?ev (on_message (take i ?hs) ?ev ?b)) \<noteq> Returns True"
  proof (intro allI impI)
    fix i :: nat assume "i < 3"
    then consider "i = 0" | "i = 1" | "i = 2" by linarith
    then show "fst (snd (?hs ! i) ?ev (on_message (take i ?hs) ?ev ?b)) \<noteq> Returns True"
      using d0 d1 d2 by cases simp_all
  qed
  have q: "quotes (bot_quotes (on_message ?hs ?ev ?b)) = [''hello world'']"
    and o: "outbox ?b = []" and g: "target ?ev = ''#ravpython''"
    by code_simp+
  from quote_trigger_answers_when_declined [OF t decl]
  have one: "outbox (on_message ?hs ?ev ?b) = [Send_message ''#ravpython'' ''hello world'']"
    unfolding q o g by auto
  let ?e = "Eggy_init []"
  have t': "sublist (trigger ?e) (message ?ev)" by code_simp
  have e0: "fst (snd (?hs ! 0) ?ev (on_message (take 0 ?hs) ?ev ?e)) \<noteq> Returns True"
    and e1: "fst (snd (?hs ! 1) ?ev (on_message (take 1 ?hs) ?ev ?e)) \<noteq> Returns True"
    and e2: "fst (snd (?hs ! 2) ?ev (on_message (take 2 ?hs) ?ev ?e)) \<noteq> Returns True"
    by code_simp+
  have decl': "\<forall>i<3. fst (snd (?hs ! i) ?ev (on_message (take i ?hs) ?ev ?e)) \<noteq> Returns True"
  proof (intro allI impI)
    fix i :: nat assume "i < 3"
    then consider "i = 0" | "i = 1" | "i = 2" by linarith
    then show "fst (snd (?hs ! i) ?ev (on_message (take i ?hs) ?ev ?e)) \<noteq> Returns True"
      using e0 e1 e2 by cases simp_all
  qed
  have q': "quotes (bot_quotes (on_message ?hs ?ev ?e)) = []" and o': "outbox ?e = []"
    by code_simp+
  from quote_trigger_answers_when_declined [OF t' decl']
  have two: "outbox (on_message ?hs ?ev ?e) = [Send_message ''#ravpython'' ''No quotes'']"
    unfolding q' o' g by auto
  from one two show ?thesis by (simp only:)
qed

section \<open>AddQuote and the count in the topic\<close>

text \<open>The substitution changes the topic exactly when the topic holds the digits of the old
  count somewhere.\<close>

lemma re_sub_absent: "\<not> sublist pat s \<Longrightarrow> re_sub pat rep s = s"
proof (induction pat rep s rule: re_sub.induct)
  case (1 pat rep)
  then show ?case by (simp add: re_sub.simps)
next
  case (2 pat rep c cs)
  from 2(3) have np: "\<not> prefix pat (c # cs)" and ns: "\<not> sublist pat cs"
    by (auto simp: sublist_Cons_right)
  with 2(2) show ?case by (simp add: re_sub.simps)
qed

lemma re_sub_present:
  "sublist pat s \<Longrightarrow> pat \<noteq> [] \<Longrightarrow> \<not> prefix pat rep \<Longrightarrow> length pat \<le> length rep \<Longrightarrow>
     re_sub pat rep s \<noteq> s"
proof (induction pat rep s rule: re_sub.induct)
  case (1 pat rep)
  then show ?case by simp
next
  case (2 pat rep c cs)
  show ?case
  proof (cases "prefix pat (c # cs)")
    case True
    show ?thesis
    proof
      assume eq: "re_sub pat rep (c # cs) = c # cs"
      with True 2(4) have "prefix rep (c # cs)"
        by (metis prefixI re_sub.simps(2))
      with True have "prefix pat rep \<or> prefix rep pat" by (metis prefix_same_cases)
      with 2(5) have "prefix rep pat" by simp
      with 2(6) have "rep = pat" by (auto simp: prefix_def)
      with 2(5) show False by simp
    qed
  next
    case False
    with 2(3) have "sublist pat cs" by (simp add: sublist_Cons_right)
    from 2(2) [OF _ this 2(4) 2(5) 2(6)] False have "re_sub pat rep cs \<noteq> cs" by simp
    with False show ?thesis by (simp add: re_sub.simps)
  qed
qed

lemma foldl_digits_lower: "a * 10 ^ length zs \<le> foldl (\<lambda>a c. 10 * a + digit_val c) a zs"
proof (induction zs arbitrary: a)
  case Nil
  then show ?case by simp
next
  case (Cons z zs)
  have "a * 10 ^ length (z # zs) \<le> (10 * a + digit_val z) * 10 ^ length zs"
    by (simp add: algebra_simps)
  also have "\<dots> \<le> foldl (\<lambda>a c. 10 * a + digit_val c) (10 * a + digit_val z) zs"
    by (rule Cons.IH)
  finally show ?case by simp
qed

lemma nat_of_digits_append_lower:
  "nat_of_digits xs * 10 ^ length zs \<le> nat_of_digits (xs @ zs)"
  by (simp add: nat_of_digits_def foldl_digits_lower)

lemma str_nat_inj: "str_nat n = str_nat m \<Longrightarrow> n = m"
  by (metis nat_of_digits_str_nat)

lemma str_nat_Suc_not_prefix: "\<not> prefix (str_nat n) (str_nat (Suc n))"
proof
  assume "prefix (str_nat n) (str_nat (Suc n))"
  then obtain zs where zs: "str_nat (Suc n) = str_nat n @ zs" by (auto simp: prefix_def)
  show False
  proof (cases zs)
    case Nil
    with zs have "Suc n = n" using str_nat_inj by auto
    then show False by simp
  next
    case (Cons z zs')
    have "n * 10 ^ length zs \<le> nat_of_digits (str_nat n @ zs)"
      using nat_of_digits_append_lower [of "str_nat n" zs] by (simp add: nat_of_digits_str_nat)
    moreover have "nat_of_digits (str_nat n @ zs) = Suc n"
      using nat_of_digits_str_nat [of "Suc n"] by (simp only: zs)
    ultimately have "n * 10 ^ length zs \<le> Suc n" by simp
    moreover from Cons have "(10::nat) ^ 1 \<le> 10 ^ length zs"
      by (intro power_increasing) simp_all
    then have "n * 10 \<le> n * 10 ^ length zs" by simp
    ultimately have "n * 10 \<le> Suc n" by linarith
    then have "n = 0" by arith
    with zs show False by (simp add: str_nat.simps digit_char_def)
  qed
qed

lemma length_str_nat_mono: "n \<le> m \<Longrightarrow> length (str_nat n) \<le> length (str_nat m)"
proof (induction n arbitrary: m rule: str_nat.induct)
  case (1 n)
  show ?case
  proof (cases "n < 10")
    case True
    then have "length (str_nat n) = 1" by (subst str_nat.simps) simp
    moreover have "1 \<le> length (str_nat m)" using str_nat_not_Nil [of m] by (cases "str_nat m") simp_all
    ultimately show ?thesis by simp
  next
    case False
    with 1(2) have m: "\<not> m < 10" by simp
    from 1(2) have "n div 10 \<le> m div 10" by (simp add: div_le_mono)
    from 1(1) [OF False this] have "length (str_nat (n div 10)) \<le> length (str_nat (m div 10))" .
    moreover have "length (str_nat n) = Suc (length (str_nat (n div 10)))"
      using False by (subst str_nat.simps) simp
    moreover have "length (str_nat m) = Suc (length (str_nat (m div 10)))"
      using m by (subst str_nat.simps) simp
    ultimately show ?thesis by simp
  qed
qed

lemma renumber_changes_topic:
  "re_sub (str_nat n) (str_nat (Suc n)) topic \<noteq> topic \<longleftrightarrow> sublist (str_nat n) topic"
  using re_sub_absent [of "str_nat n" topic "str_nat (Suc n)"]
    re_sub_present [of "str_nat n" topic "str_nat (Suc n)"]
    str_nat_Suc_not_prefix [of n] length_str_nat_mono [of n "Suc n"] str_nat_not_Nil [of n]
  by auto


lemma str_int_nat: "str_int (int n) = str_nat n"
  by (simp add: str_int_def)

text \<open>
  Claim C1. \<^verbatim>\<open>AddQuote.on_command\<close> on a text that \<^verbatim>\<open>Quotes.add\<close> accepts and the
  store does not hold, with \<open>n\<close> the count before the call. When a topic is cached for the
  target and holds the digits of \<open>n\<close>, every occurrence of them is replaced by the digits
  of \<open>n + 1\<close>, the new topic is sent in a \<^verbatim>\<open>TOPIC\<close> command and no reply is sent. When a
  topic is cached and does not hold the digits of \<open>n\<close>, the reply
  \<^verbatim>\<open>Quote added. <n + 1> quotes in database\<close> is sent. When no topic is cached for the
  target, \<^verbatim>\<open>bot.topics[event.target]\<close> raises \<^verbatim>\<open>KeyError\<close> after the quote has been
  stored, and nothing is sent: this is where the code departs from the claim.
\<close>

theorem add_quote_topic_or_reply:
  assumes "\<not> contains (bot_quotes b) new_quote" and "new_quote \<noteq> []" and "LF \<notin> set new_quote"
  shows "(case topics b (target ev) of
            None \<Rightarrow>
              AddQuote_on_command ev new_quote b =
                (Raises (KeyError (target ev)), b\<lparr>bot_quotes := snd (add new_quote (bot_quotes b))\<rparr>)
          | Some topic \<Rightarrow>
              if sublist (str_int (int (len (bot_quotes b)))) topic
              then AddQuote_on_command ev new_quote b =
                (Returns True,
                 change_topic (target ev)
                   (re_sub (str_int (int (len (bot_quotes b)))) (str_int (int (len (bot_quotes b)) + 1)) topic)
                   (b\<lparr>bot_quotes := snd (add new_quote (bot_quotes b))\<rparr>))
              else AddQuote_on_command ev new_quote b =
                (Returns True,
                 respond ev (''Quote added. '' @ str_int (int (len (bot_quotes b)) + 1) @ '' quotes in database'')
                   (b\<lparr>bot_quotes := snd (add new_quote (bot_quotes b))\<rparr>)))"
proof (cases "topics b (target ev)")
  case None
  with assms show ?thesis by (simp add: AddQuote_on_command_def add_def)
next
  case (Some topic)
  let ?n = "len (bot_quotes b)"
  have s: "\<And>k. str_int (int k) = str_nat k" "\<And>k. str_int (1 + int k) = str_nat (Suc k)"
    "\<And>k. str_int (int k + 1) = str_nat (Suc k)"
    by (simp_all add: str_int_def nat_add_distrib)
  have e: "topic = [] \<Longrightarrow> \<not> sublist (str_nat ?n) topic" by (simp add: str_nat_not_Nil)
  show ?thesis
  proof (cases "sublist (str_nat ?n) topic")
    case True
    with e have "topic \<noteq> []" by blast
    moreover from True have "re_sub (str_nat ?n) (str_nat (Suc ?n)) topic \<noteq> topic"
      by (simp add: renumber_changes_topic)
    ultimately show ?thesis
      using assms Some True
      by (simp add: AddQuote_on_command_def add_def len_def s Let_def)
  next
    case False
    then have "re_sub (str_nat ?n) (str_nat (Suc ?n)) topic = topic"
      by (simp add: re_sub_absent)
    then show ?thesis
      using assms Some False
      by (simp add: AddQuote_on_command_def add_def len_def s Let_def)
  qed
qed


theorem add_quote_topic_or_reply_witness:
  "fst (AddQuote_on_command \<lparr>source = ''alice'', target = ''#ravpython'', message = ''eggpy add hello world''\<rparr>
          ''hello world'' (Eggy_init []))
     = Raises (KeyError ''#ravpython'')
   \<and> outbox (snd (AddQuote_on_command
          \<lparr>source = ''alice'', target = ''#ravpython'', message = ''eggpy add hello world''\<rparr>
          ''hello world'' (Eggy_init []))) = []
   \<and> AddQuote_on_command \<lparr>source = ''alice'', target = ''#ravpython'', message = ''eggpy add f''\<rparr> ''f''
          (topic_changed ''#ravpython'' ''5 quotes''
             (Eggy_init [CHR ''a'', LF, CHR ''b'', LF, CHR ''c'', LF, CHR ''d'', LF, CHR ''e'', LF]))
     = (Returns True, change_topic ''#ravpython'' ''6 quotes''
          ((topic_changed ''#ravpython'' ''5 quotes''
             (Eggy_init [CHR ''a'', LF, CHR ''b'', LF, CHR ''c'', LF, CHR ''d'', LF, CHR ''e'', LF]))
           \<lparr>bot_quotes := snd (add ''f'' (bot_quotes (topic_changed ''#ravpython'' ''5 quotes''
             (Eggy_init [CHR ''a'', LF, CHR ''b'', LF, CHR ''c'', LF, CHR ''d'', LF, CHR ''e'', LF]))))\<rparr>))
   \<and> AddQuote_on_command \<lparr>source = ''alice'', target = ''#ravpython'', message = ''eggpy add f''\<rparr> ''f''
          (topic_changed ''#ravpython'' ''random channel''
             (Eggy_init [CHR ''a'', LF, CHR ''b'', LF, CHR ''c'', LF, CHR ''d'', LF, CHR ''e'', LF]))
     = (Returns True, respond \<lparr>source = ''alice'', target = ''#ravpython'', message = ''eggpy add f''\<rparr>
          ''Quote added. 6 quotes in database''
          ((topic_changed ''#ravpython'' ''random channel''
             (Eggy_init [CHR ''a'', LF, CHR ''b'', LF, CHR ''c'', LF, CHR ''d'', LF, CHR ''e'', LF]))
           \<lparr>bot_quotes := snd (add ''f'' (bot_quotes (topic_changed ''#ravpython'' ''random channel''
             (Eggy_init [CHR ''a'', LF, CHR ''b'', LF, CHR ''c'', LF, CHR ''d'', LF, CHR ''e'', LF]))))\<rparr>))"
proof -
  let ?ev = "\<lparr>source = ''alice'', target = ''#ravpython'', message = ''eggpy add hello world''\<rparr>"
  let ?evf = "\<lparr>source = ''alice'', target = ''#ravpython'', message = ''eggpy add f''\<rparr>"
  let ?b0 = "Eggy_init []"
  let ?b5 = "Eggy_init [CHR ''a'', LF, CHR ''b'', LF, CHR ''c'', LF, CHR ''d'', LF, CHR ''e'', LF]"
  let ?bt = "topic_changed ''#ravpython'' ''5 quotes'' ?b5"
  let ?br = "topic_changed ''#ravpython'' ''random channel'' ?b5"
  have n0: "\<not> contains (bot_quotes ?b0) ''hello world''" by code_simp
  have v0: "''hello world'' \<noteq> []" "LF \<notin> set ''hello world''" by simp_all
  have t0: "topics ?b0 (target ?ev) = None" by (simp add: Eggy_init_def)
  have o0: "outbox (?b0\<lparr>bot_quotes := snd (add ''hello world'' (bot_quotes ?b0))\<rparr>) = []"
    by (simp add: Eggy_init_def)
  have first: "AddQuote_on_command ?ev ''hello world'' ?b0 =
      (Raises (KeyError ''#ravpython''), ?b0\<lparr>bot_quotes := snd (add ''hello world'' (bot_quotes ?b0))\<rparr>)"
    using add_quote_topic_or_reply [OF n0 v0, of ?ev] unfolding t0 by simp
  have vf: "''f'' \<noteq> []" "LF \<notin> set ''f''" by simp_all
  have nt: "\<not> contains (bot_quotes ?bt) ''f''" and nr: "\<not> contains (bot_quotes ?br) ''f''"
    by code_simp+
  have tt: "topics ?bt (target ?evf) = Some ''5 quotes''"
    and tr: "topics ?br (target ?evf) = Some ''random channel''"
    by (simp_all add: topic_changed_def)
  have lt: "int (len (bot_quotes ?bt)) = 5" and lr: "int (len (bot_quotes ?br)) = 5"
    by code_simp+
  have s5: "str_int 5 = ''5''" and s6: "str_int 6 = ''6''"
    and st: "sublist ''5'' ''5 quotes''" and sr: "\<not> sublist ''5'' ''random channel''"
    and rt: "re_sub ''5'' ''6'' ''5 quotes'' = ''6 quotes''"
    by code_simp+
  have second: "AddQuote_on_command ?evf ''f'' ?bt =
      (Returns True, change_topic ''#ravpython'' ''6 quotes'' (?bt\<lparr>bot_quotes := snd (add ''f'' (bot_quotes ?bt))\<rparr>))"
    using add_quote_topic_or_reply [OF nt vf, of ?evf] unfolding tt
    by (simp add: lt s5 s6 st rt)
  have third: "AddQuote_on_command ?evf ''f'' ?br =
      (Returns True, respond ?evf ''Quote added. 6 quotes in database''
         (?br\<lparr>bot_quotes := snd (add ''f'' (bot_quotes ?br))\<rparr>))"
    using add_quote_topic_or_reply [OF nr vf, of ?evf] unfolding tr
    by (simp add: lr s5 s6 sr)
  from first second third o0 show ?thesis by simp
qed

section \<open>The store and its file\<close>

text \<open>When the file is empty or ends in a line feed and mirrors the list, adding a text
  that holds neither line feed nor carriage return keeps the file a mirror of the list.\<close>

lemma universal_newlines_Cons: "c \<noteq> CR \<Longrightarrow> universal_newlines (c # g) = c # universal_newlines g"
  by (cases g) simp_all

lemma universal_newlines_id: "CR \<notin> set s \<Longrightarrow> universal_newlines s = s"
  by (induction s) (auto simp: universal_newlines_Cons)

lemma universal_newlines_append:
  "f = [] \<or> last f \<noteq> CR \<Longrightarrow> universal_newlines (f @ g) = universal_newlines f @ universal_newlines g"
proof (induction f rule: universal_newlines.induct)
  case 1
  then show ?case by simp
next
  case (2 c)
  then show ?case by (simp add: universal_newlines_Cons)
next
  case (3 c d ds)
  then show ?case by (cases "ds = []") (auto simp: universal_newlines_Cons)
qed

lemma universal_newlines_last:
  "f \<noteq> [] \<Longrightarrow> last f = LF \<Longrightarrow> universal_newlines f \<noteq> [] \<and> last (universal_newlines f) = LF"
proof (induction f rule: universal_newlines.induct)
  case 1
  then show ?case by simp
next
  case (2 c)
  then show ?case by simp
next
  case (3 c d ds)
  then show ?case by (cases "ds = []") auto
qed

lemma file_lines_Nil: "file_lines s = [] \<longleftrightarrow> s = []"
  by (cases s) (simp_all split: list.splits)

lemma file_lines_append:
  "f = [] \<or> last f = LF \<Longrightarrow> file_lines (f @ g) = file_lines f @ file_lines g"
proof (induction f)
  case Nil
  then show ?case by simp
next
  case (Cons c cs)
  show ?case
  proof (cases "c = LF")
    case True
    with Cons show ?thesis by (cases "cs = []") auto
  next
    case False
    with Cons.prems have cs: "cs \<noteq> []" "last cs = LF" by (auto split: if_splits)
    with Cons.IH have "file_lines (cs @ g) = file_lines cs @ file_lines g" by simp
    moreover from cs have "file_lines cs \<noteq> []" by (simp add: file_lines_Nil)
    ultimately show ?thesis using False by (cases "file_lines cs") simp_all
  qed
qed

lemma file_lines_one: "LF \<notin> set q \<Longrightarrow> file_lines (q @ [LF]) = [q @ [LF]]"
  by (induction q) auto

lemma rstrip_line: "LF \<notin> set q \<Longrightarrow> CR \<notin> set q \<Longrightarrow> rstrip [LF, CR] (q @ [LF]) = q"
proof -
  assume a: "LF \<notin> set q" "CR \<notin> set q"
  have "dropWhile (\<lambda>c. c \<in> set [LF, CR]) (rev q) = rev q"
  proof (cases "rev q")
    case Nil
    then show ?thesis by simp
  next
    case (Cons x xs)
    then have "x \<in> set q" by (metis list.set_intros(1) set_rev)
    with a Cons show ?thesis by auto
  qed
  then show ?thesis by (simp add: rstrip_def)
qed

lemma add_keeps_mirror:
  assumes "quotes (read_quotes q) = quotes q"
    and "quotesfd q = [] \<or> last (quotesfd q) = LF"
    and "s \<noteq> []" and "LF \<notin> set s" and "CR \<notin> set s"
  shows "quotes (read_quotes (snd (add s q))) = quotes (snd (add s q))"
proof -
  let ?f = "quotesfd q"
  have "universal_newlines (?f @ s @ [LF]) = universal_newlines ?f @ s @ [LF]"
    using assms(2,4,5) by (subst universal_newlines_append) (auto simp: universal_newlines_id)
  moreover have "universal_newlines ?f = [] \<or> last (universal_newlines ?f) = LF"
    using assms(2) universal_newlines_last [of ?f] by (cases "?f = []") simp_all
  ultimately have "file_lines (universal_newlines (?f @ s @ [LF])) =
      file_lines (universal_newlines ?f) @ [s @ [LF]]"
    using assms(4) by (simp add: file_lines_append file_lines_one)
  then have "map (rstrip [LF, CR]) (file_lines (universal_newlines (?f @ s @ [LF]))) =
      map (rstrip [LF, CR]) (file_lines (universal_newlines ?f)) @ [s]"
    using assms(4,5) by (simp add: rstrip_line)
  with assms(1,3,4) show ?thesis by (simp add: add_def read_quotes_def)
qed

text \<open>
  Claim C7. The list in memory should be what reading the file again gives.
  \<^verbatim>\<open>Quotes.add\<close> refuses a line feed only, while \<^verbatim>\<open>_read_quotes\<close> takes a carriage
  return for the end of a line too and strips it: the text \<^verbatim>\<open>abc\r\<close> is accepted, is in
  the list as it is, and is read back from the file as \<^verbatim>\<open>abc\<close>; the text
  \<^verbatim>\<open>a\rb\<close> is read back as the two quotes \<^verbatim>\<open>a\<close> and \<^verbatim>\<open>b\<close>.
\<close>

theorem carriage_return_breaks_mirror:
  "fst (add (''abc'' @ [CR]) (Quotes_init [])) = None
   \<and> quotes (snd (add (''abc'' @ [CR]) (Quotes_init []))) = [''abc'' @ [CR]]
   \<and> quotesfd (snd (add (''abc'' @ [CR]) (Quotes_init []))) = ''abc'' @ [CR, LF]
   \<and> quotes (read_quotes (snd (add (''abc'' @ [CR]) (Quotes_init [])))) = [''abc'']
   \<and> fst (add (''a'' @ [CR] @ ''b'') (Quotes_init [])) = None
   \<and> quotes (snd (add (''a'' @ [CR] @ ''b'') (Quotes_init []))) = [''a'' @ [CR] @ ''b'']
   \<and> quotes (read_quotes (snd (add (''a'' @ [CR] @ ''b'') (Quotes_init [])))) = [''a'', ''b'']"
  by code_simp

section \<open>The scenario from an empty store\<close>

text \<open>With a topic cached that holds no digit \<^verbatim>\<open>0\<close>, the five messages get the replies
  of the scenario; the last message gets the only quote as a reply and changes no
  nickname.\<close>

lemma scenario_with_cached_topic:
  "outbox
     (on_message (message_handlers \<lparr>add_quote = ''7f3a5c1d2e80'', get_quote = ''7f3a5c1d2eb0'', rebirth = ''7f3a5c1d2ee0'', quote_trigger = ''7f3a5c1d2f10''\<rparr> 0) \<lparr>source = ''alice'', target = ''#ravpython'', message = ''eggpy rebirth bot2!''\<rparr>
     (on_message (message_handlers \<lparr>add_quote = ''7f3a5c1d2e80'', get_quote = ''7f3a5c1d2eb0'', rebirth = ''7f3a5c1d2ee0'', quote_trigger = ''7f3a5c1d2f10''\<rparr> 0) \<lparr>source = ''alice'', target = ''#ravpython'', message = ''eggpy''\<rparr>
     (on_message (message_handlers \<lparr>add_quote = ''7f3a5c1d2e80'', get_quote = ''7f3a5c1d2eb0'', rebirth = ''7f3a5c1d2ee0'', quote_trigger = ''7f3a5c1d2f10''\<rparr> 0) \<lparr>source = ''alice'', target = ''#ravpython'', message = ''#1''\<rparr>
     (on_message (message_handlers \<lparr>add_quote = ''7f3a5c1d2e80'', get_quote = ''7f3a5c1d2eb0'', rebirth = ''7f3a5c1d2ee0'', quote_trigger = ''7f3a5c1d2f10''\<rparr> 0) \<lparr>source = ''alice'', target = ''#ravpython'', message = ''#''\<rparr>
     (on_message (message_handlers \<lparr>add_quote = ''7f3a5c1d2e80'', get_quote = ''7f3a5c1d2eb0'', rebirth = ''7f3a5c1d2ee0'', quote_trigger = ''7f3a5c1d2f10''\<rparr> 0) \<lparr>source = ''alice'', target = ''#ravpython'', message = ''eggpy add hello world''\<rparr>
      (topic_changed ''#ravpython'' ''random channel'' (Eggy_init [])))))))
     = [Send_message ''#ravpython'' ''Quote added. 1 quotes in database'', Send_message ''#ravpython'' ''1'',
        Send_message ''#ravpython'' ''hello world'', Send_message ''#ravpython'' ''hello world'',
        Send_message ''#ravpython'' ''hello world'']"
  by code_simp

text \<open>
  Claim C9. The scenario on the bot as \<^verbatim>\<open>Eggy.__init__\<close> leaves it, with an empty quotes
  file and no topic cached. The first message \<^verbatim>\<open>eggpy add hello world\<close> stores the quote,
  then \<^verbatim>\<open>AddQuote\<close> raises \<^verbatim>\<open>KeyError\<close>; the dispatcher logs it and goes on, and
  \<^verbatim>\<open>QuoteTrigger\<close> replies with the quote just stored: the reply is \<^verbatim>\<open>hello world\<close>,
  not a confirmation with the total 1. The four later messages get \<^verbatim>\<open>1\<close>,
  \<^verbatim>\<open>hello world\<close>, \<^verbatim>\<open>hello world\<close> and, for \<^verbatim>\<open>eggpy rebirth bot2!\<close>,
  \<^verbatim>\<open>hello world\<close> again with no change of nickname.
\<close>

theorem scenario_on_fresh_bot:
  "outbox (on_message (message_handlers \<lparr>add_quote = ''7f3a5c1d2e80'', get_quote = ''7f3a5c1d2eb0'', rebirth = ''7f3a5c1d2ee0'', quote_trigger = ''7f3a5c1d2f10''\<rparr> 0) \<lparr>source = ''alice'', target = ''#ravpython'', message = ''eggpy add hello world''\<rparr>
      (Eggy_init []))
     = [Send_message ''#ravpython'' ''hello world'']
   \<and> outbox
     (on_message (message_handlers \<lparr>add_quote = ''7f3a5c1d2e80'', get_quote = ''7f3a5c1d2eb0'', rebirth = ''7f3a5c1d2ee0'', quote_trigger = ''7f3a5c1d2f10''\<rparr> 0) \<lparr>source = ''alice'', target = ''#ravpython'', message = ''eggpy rebirth bot2!''\<rparr>
     (on_message (message_handlers \<lparr>add_quote = ''7f3a5c1d2e80'', get_quote = ''7f3a5c1d2eb0'', rebirth = ''7f3a5c1d2ee0'', quote_trigger = ''7f3a5c1d2f10''\<rparr> 0) \<lparr>source = ''alice'', target = ''#ravpython'', message = ''eggpy''\<rparr>
     (on_message (message_handlers \<lparr>add_quote = ''7f3a5c1d2e80'', get_quote = ''7f3a5c1d2eb0'', rebirth = ''7f3a5c1d2ee0'', quote_trigger = ''7f3a5c1d2f10''\<rparr> 0) \<lparr>source = ''alice'', target = ''#ravpython'', message = ''#1''\<rparr>
     (on_message (message_handlers \<lparr>add_quote = ''7f3a5c1d2e80'', get_quote = ''7f3a5c1d2eb0'', rebirth = ''7f3a5c1d2ee0'', quote_trigger = ''7f3a5c1d2f10''\<rparr> 0) \<lparr>source = ''alice'', target = ''#ravpython'', message = ''#''\<rparr>
     (on_message (message_handlers \<lparr>add_quote = ''7f3a5c1d2e80'', get_quote = ''7f3a5c1d2eb0'', rebirth = ''7f3a5c1d2ee0'', quote_trigger = ''7f3a5c1d2f10''\<rparr> 0) \<lparr>source = ''alice'', target = ''#ravpython'', message = ''eggpy add hello world''\<rparr>
      (Eggy_init []))))))
     = [Send_message ''#ravpython'' ''hello world'', Send_message ''#ravpython'' ''1'',
        Send_message ''#ravpython'' ''hello world'', Send_message ''#ravpython'' ''hello world'',
        Send_message ''#ravpython'' ''hello world'']"
  by code_simp

end
